theory Spec2Isabelle
  imports Main "HOL-Library.AList" "HOL-Library.Log_Nat"
begin

section \<open>Python strings\<close>

text \<open>
  A Python \<^verbatim>\<open>str\<close> is modelled as a \<^typ>\<open>string\<close>. The character classes
  below are the ones Python uses on the ASCII range: \<^verbatim>\<open>str.strip()\<close> and the regex
  class \<^verbatim>\<open>\s\<close> remove the code points 9..13 and 28..32, \<^verbatim>\<open>str.isdigit()\<close> and
  \<^verbatim>\<open>\d\<close> accept \<^verbatim>\<open>0\<close>..\<^verbatim>\<open>9\<close>, \<^verbatim>\<open>str.lower()\<close> maps \<^verbatim>\<open>A\<close>..\<^verbatim>\<open>Z\<close> to
  \<^verbatim>\<open>a\<close>..\<^verbatim>\<open>z\<close>.
\<close>

definition is_space :: "char \<Rightarrow> bool" where
  "is_space c = (let n = (of_char c :: nat) in (9 \<le> n \<and> n \<le> 13) \<or> (28 \<le> n \<and> n \<le> 32))"

definition is_digit :: "char \<Rightarrow> bool" where
  "is_digit c = (let n = (of_char c :: nat) in 48 \<le> n \<and> n \<le> 57)"

definition lower_char :: "char \<Rightarrow> char" where
  "lower_char c = (let n = (of_char c :: nat) in if 65 \<le> n \<and> n \<le> 90 then char_of (n + 32) else c)"

definition strip :: "string \<Rightarrow> string" where
  "strip s = rev (dropWhile is_space (rev (dropWhile is_space s)))"

definition lower :: "string \<Rightarrow> string" where
  "lower s = map lower_char s"

text \<open>\<^verbatim>\<open>s.startswith(p)\<close>.\<close>

fun startswith :: "string \<Rightarrow> string \<Rightarrow> bool" where
  "startswith s [] = True"
| "startswith [] (p # ps) = False"
| "startswith (c # cs) (p # ps) = (c = p \<and> startswith cs ps)"

text \<open>\<^verbatim>\<open>k in t\<close> on strings: \<^verbatim>\<open>k\<close> occurs in \<^verbatim>\<open>t\<close> as a contiguous run.\<close>

fun str_in :: "string \<Rightarrow> string \<Rightarrow> bool" where
  "str_in k [] = (k = [])"
| "str_in k (c # cs) = (startswith (c # cs) k \<or> str_in k cs)"

text \<open>\<^verbatim>\<open>s.isdigit()\<close>: false on the empty string.\<close>

definition isdigit :: "string \<Rightarrow> bool" where
  "isdigit s = (s \<noteq> [] \<and> list_all is_digit s)"

text \<open>\<^verbatim>\<open>s.split(",")\<close>: always at least one piece.\<close>

fun split_comma :: "string \<Rightarrow> string list" where
  "split_comma [] = [[]]"
| "split_comma (c # cs) =
     (if c = CHR '','' then [] # split_comma cs
      else (case split_comma cs of [] \<Rightarrow> [[c]] | p # ps \<Rightarrow> (c # p) # ps))"

section \<open>core/state.py\<close>

definition EXIT_KEYWORDS :: "string list" where
  "EXIT_KEYWORDS = [''quit'', ''exit'', ''bye'', ''stop'', ''goodbye'', ''end'', ''finish'', ''done'']"

definition detect_exit :: "string \<Rightarrow> bool" where
  "detect_exit text =
     (if text = [] then False
      else (let t = lower (strip text) in
            if t \<in> set EXIT_KEYWORDS then True
            else list_ex (\<lambda>keyword. str_in keyword t) EXIT_KEYWORDS))"

datatype step =
    GREETING | CONSENT | INTAKE_NAME | INTAKE_EMAIL | INTAKE_PHONE | INTAKE_YOE
  | INTAKE_POSITION | INTAKE_LOCATION | INTAKE_TECH | GENERATE_QA | TECHNICAL_QA
  | FOLLOWUP | END

text \<open>A Python \<^verbatim>\<open>float\<close>: a finite value (a rational), an infinity or a NaN.\<close>

datatype pyfloat = Finite rat | PosInf | NegInf | NaN

record AnswerScore =
  score :: int
  reasoning :: string
  strengths :: "string list"
  improvements :: "string list"

text \<open>One entry of \<^verbatim>\<open>questions_data\<close>: the dict with the four keys the handler writes.\<close>

record question_dict =
  qd_topic :: string
  qd_question :: string
  qd_difficulty :: string
  qd_question_id :: string

text \<open>
  \<^verbatim>\<open>Candidate\<close> of core/schemas.py. The two dicts are association lists in insertion
  order, as Python dicts are; \<^verbatim>\<open>d[k] = v\<close> is \<^const>\<open>AList.update\<close>.
\<close>

record Candidate =
  full_name :: "string option"
  email :: "string option"
  phone :: "string option"
  years_experience :: "pyfloat option"
  desired_positions :: "string list"
  current_location :: "string option"
  tech_stack :: "string list"
  consent_given :: bool
  technical_questions :: "question_dict list"
  technical_answers :: "(string \<times> string) list"
  answer_scores :: "(string \<times> AnswerScore) list"
  overall_score :: "rat option"
  additional_comments :: "string option"

text \<open>The value \<^verbatim>\<open>getattr(candidate, field)\<close> returns for a required field.\<close>

datatype pyval = PNone | PStr string | PList "string list" | PFloat pyfloat

definition INTAKE_ORDER :: "step list" where
  "INTAKE_ORDER = [INTAKE_NAME, INTAKE_EMAIL, INTAKE_PHONE, INTAKE_YOE, INTAKE_POSITION,
     INTAKE_LOCATION, INTAKE_TECH]"

definition opt_str :: "string option \<Rightarrow> pyval" where
  "opt_str v = (case v of None \<Rightarrow> PNone | Some s \<Rightarrow> PStr s)"

text \<open>\<^verbatim>\<open>getattr(candidate, field_mapping[step])\<close>, for the steps of \<^const>\<open>INTAKE_ORDER\<close>.\<close>

fun getattr_step :: "Candidate \<Rightarrow> step \<Rightarrow> pyval" where
  "getattr_step c INTAKE_NAME = opt_str (full_name c)"
| "getattr_step c INTAKE_EMAIL = opt_str (email c)"
| "getattr_step c INTAKE_PHONE = opt_str (phone c)"
| "getattr_step c INTAKE_YOE = (case years_experience c of None \<Rightarrow> PNone | Some y \<Rightarrow> PFloat y)"
| "getattr_step c INTAKE_POSITION = PList (desired_positions c)"
| "getattr_step c INTAKE_LOCATION = opt_str (current_location c)"
| "getattr_step c INTAKE_TECH = PList (tech_stack c)"
| "getattr_step c _ = PNone"

text \<open>
  \<^verbatim>\<open>val is None or (isinstance(val, list) and not val) or (isinstance(val, str) and not val.strip())\<close>
\<close>

fun is_empty_val :: "pyval \<Rightarrow> bool" where
  "is_empty_val PNone = True"
| "is_empty_val (PList xs) = (xs = [])"
| "is_empty_val (PStr s) = (strip s = [])"
| "is_empty_val (PFloat y) = False"

text \<open>The \<^verbatim>\<open>for step in INTAKE_ORDER\<close> loop with its early return.\<close>

fun scan_order :: "Candidate \<Rightarrow> step list \<Rightarrow> step" where
  "scan_order c [] = GENERATE_QA"
| "scan_order c (st # rest) = (if is_empty_val (getattr_step c st) then st else scan_order c rest)"

definition next_step :: "Candidate \<Rightarrow> 'state \<Rightarrow> step" where
  "next_step candidate state =
     (if \<not> consent_given candidate then CONSENT else scan_order candidate INTAKE_ORDER)"

text \<open>
  The claim's wording of the same function: an if-chain over the seven required fields in
  the fixed order, a field being unset when it is \<^verbatim>\<open>None\<close>, an empty sequence or a
  blank string (empty or white space only).
\<close>

definition blank :: "string \<Rightarrow> bool" where
  "blank s = list_all is_space s"

definition unset_str :: "string option \<Rightarrow> bool" where
  "unset_str v = (case v of None \<Rightarrow> True | Some s \<Rightarrow> blank s)"

definition next_step_spec :: "Candidate \<Rightarrow> step" where
  "next_step_spec c =
     (if \<not> consent_given c then CONSENT
      else if unset_str (full_name c) then INTAKE_NAME
      else if unset_str (email c) then INTAKE_EMAIL
      else if unset_str (phone c) then INTAKE_PHONE
      else if years_experience c = None then INTAKE_YOE
      else if desired_positions c = [] then INTAKE_POSITION
      else if unset_str (current_location c) then INTAKE_LOCATION
      else if tech_stack c = [] then INTAKE_TECH
      else GENERATE_QA)"

section \<open>core/answer_scorer.py\<close>

text \<open>The exceptions the modelled code can raise.\<close>

datatype py_error =
  ServiceError | JSONDecodeError | AttributeError | TypeError | ValidationError | RetryError
  | IndexError

text \<open>What \<^verbatim>\<open>await ollama_chat(...)\<close> does on one call: it raises, or returns the text.\<close>

datatype reply = Raises | Content string

text \<open>A value returned by \<^verbatim>\<open>json.loads\<close>; an object is a dict in insertion order.\<close>

datatype json =
  JNull | JBool bool | JInt int | JFloat pyfloat | JStr string | JArr "json list"
  | JObj "(string \<times> json) list"

text \<open>\<^verbatim>\<open>d.get(key, default)\<close> on a dict.\<close>

definition dict_get :: "(string \<times> json) list \<Rightarrow> string \<Rightarrow> json \<Rightarrow> json" where
  "dict_get d key dflt = (case map_of d key of None \<Rightarrow> dflt | Some v \<Rightarrow> v)"

text \<open>\<^verbatim>\<open>text.find(c)\<close> and \<^verbatim>\<open>text.rfind(c)\<close>; \<^const>\<open>None\<close> is Python's -1.\<close>

fun find_char :: "char \<Rightarrow> string \<Rightarrow> nat option" where
  "find_char c [] = None"
| "find_char c (x # xs) = (if x = c then Some 0 else map_option Suc (find_char c xs))"

definition rfind_char :: "char \<Rightarrow> string \<Rightarrow> nat option" where
  "rfind_char c s = map_option (\<lambda>i. length s - 1 - i) (find_char c (rev s))"

text \<open>\<^verbatim>\<open>text[start : end + 1]\<close> for \<^verbatim>\<open>0 <= start < end\<close>.\<close>

definition slice_incl :: "string \<Rightarrow> nat \<Rightarrow> nat \<Rightarrow> string" where
  "slice_incl s start end' = take (end' + 1 - start) (drop start s)"

text \<open>
  The second attempt of both permissive parsers: the text between the first \<^verbatim>\<open>{\<close> and
  the last \<^verbatim>\<open>}\<close>, when \<^verbatim>\<open>start != -1 and end != -1 and end > start\<close>. The parameter
  \<open>loads\<close> is \<^verbatim>\<open>json.loads\<close>, \<^const>\<open>None\<close> when it raises.
\<close>

definition loads_braces :: "(string \<Rightarrow> json option) \<Rightarrow> string \<Rightarrow> json option" where
  "loads_braces loads text =
     (case (find_char CHR ''{'' text, rfind_char CHR ''}'' text) of
        (Some start, Some end') \<Rightarrow>
          if end' > start then loads (slice_incl text start end') else None
      | _ \<Rightarrow> None)"

definition fallback_parse :: json where
  "fallback_parse = JObj
     [(''score'', JInt 5),
      (''reasoning'', JStr ''Unable to parse detailed scoring.''),
      (''strengths'', JArr [JStr ''Answer provided'']),
      (''improvements'', JArr [JStr ''Could provide more detail''])]"

definition extract_json :: "(string \<Rightarrow> json option) \<Rightarrow> string \<Rightarrow> json" where
  "extract_json loads text =
     (case loads text of
        Some j \<Rightarrow> j
      | None \<Rightarrow> (case loads_braces loads text of Some j \<Rightarrow> j | None \<Rightarrow> fallback_parse))"

text \<open>
  \<^verbatim>\<open>min(10, x)\<close> returns \<^verbatim>\<open>x\<close> when \<^verbatim>\<open>x < 10\<close> and 10 otherwise; \<^verbatim>\<open>max(0, y)\<close>
  returns \<^verbatim>\<open>y\<close> when \<^verbatim>\<open>y > 0\<close> and 0 otherwise. The comparison raises TypeError unless
  the value is an int, a bool or a float; a comparison with NaN is false.
\<close>

fun lt_ten :: "json \<Rightarrow> py_error + bool" where
  "lt_ten (JInt i) = Inr (i < 10)"
| "lt_ten (JBool b) = Inr True"
| "lt_ten (JFloat (Finite q)) = Inr (q < 10)"
| "lt_ten (JFloat NegInf) = Inr True"
| "lt_ten (JFloat PosInf) = Inr False"
| "lt_ten (JFloat NaN) = Inr False"
| "lt_ten _ = Inl TypeError"

fun gt_zero :: "json \<Rightarrow> py_error + bool" where
  "gt_zero (JInt i) = Inr (i > 0)"
| "gt_zero (JBool b) = Inr b"
| "gt_zero (JFloat (Finite q)) = Inr (q > 0)"
| "gt_zero (JFloat PosInf) = Inr True"
| "gt_zero (JFloat NegInf) = Inr False"
| "gt_zero (JFloat NaN) = Inr False"
| "gt_zero _ = Inl TypeError"

definition min_ten :: "json \<Rightarrow> py_error + json" where
  "min_ten x = (case lt_ten x of Inl e \<Rightarrow> Inl e | Inr b \<Rightarrow> Inr (if b then x else JInt 10))"

definition max_zero :: "json \<Rightarrow> py_error + json" where
  "max_zero y = (case gt_zero y of Inl e \<Rightarrow> Inl e | Inr b \<Rightarrow> Inr (if b then y else JInt 0))"

text \<open>
  The pydantic validation of \<^verbatim>\<open>score: int = Field(ge=0, le=10)\<close>: an int in range, a bool
  (as 0 or 1), or a float with no fractional part and in range.
\<close>

definition in_range :: "int \<Rightarrow> py_error + int" where
  "in_range i = (if 0 \<le> i \<and> i \<le> 10 then Inr i else Inl ValidationError)"

fun validate_score :: "json \<Rightarrow> py_error + int" where
  "validate_score (JInt i) = in_range i"
| "validate_score (JBool b) = in_range (if b then 1 else 0)"
| "validate_score (JFloat (Finite q)) =
     (if of_int \<lfloor>q\<rfloor> = q then in_range \<lfloor>q\<rfloor> else Inl ValidationError)"
| "validate_score _ = Inl ValidationError"

fun validate_str :: "json \<Rightarrow> py_error + string" where
  "validate_str (JStr s) = Inr s"
| "validate_str _ = Inl ValidationError"

fun validate_strs :: "json list \<Rightarrow> py_error + string list" where
  "validate_strs [] = Inr []"
| "validate_strs (JStr s # rest) =
     (case validate_strs rest of Inl e \<Rightarrow> Inl e | Inr ss \<Rightarrow> Inr (s # ss))"
| "validate_strs (_ # rest) = Inl ValidationError"

fun validate_str_list :: "json \<Rightarrow> py_error + string list" where
  "validate_str_list (JArr xs) = validate_strs xs"
| "validate_str_list _ = Inl ValidationError"

text \<open>\<^verbatim>\<open>simple_score_answer\<close>: the buckets assign the four variables, then the adjustment.\<close>

definition simple_score_answer :: "string \<Rightarrow> string \<Rightarrow> string \<Rightarrow> AnswerScore" where
  "simple_score_answer answer topic difficulty =
     (let answer_length = length (strip answer);
          (score0, reasoning0, strengths0, improvements0) =
            (if answer_length < 20 then
               (3::int, ''Answer is too brief for a technical question'', [],
                [''Provide more detailed explanation'', ''Include examples or use cases''])
             else if answer_length < 50 then
               (5, ''Answer has basic content but lacks depth'', [''Clear and concise''],
                [''Add more technical details'', ''Explain the reasoning behind your answer''])
             else if answer_length < 150 then
               (7, ''Good comprehensive answer with adequate detail'',
                [''Well-structured response'', ''Good level of detail''],
                [''Could include more specific examples''])
             else
               (8, ''Comprehensive and detailed answer'',
                [''Thorough explanation'', ''Good depth of knowledge''],
                [''Excellent detail level'']));
          score1 =
            (if difficulty = ''easy'' \<and> score0 \<ge> 6 then min 10 (score0 + 1)
             else if difficulty = ''hard'' \<and> score0 \<le> 7 then max 1 (score0 - 1)
             else score0)
      in \<lparr>score = score1, reasoning = reasoning0, strengths = strengths0,
          improvements = improvements0\<rparr>)"

text \<open>
  The \<^verbatim>\<open>try\<close> block of \<^verbatim>\<open>score_answer\<close>: the call, the parse, the clamp and the
  construction of the \<^verbatim>\<open>AnswerScore\<close>, with every exception as a value.
\<close>

definition score_answer_try :: "(string \<Rightarrow> json option) \<Rightarrow> reply \<Rightarrow> py_error + AnswerScore" where
  "score_answer_try loads r =
     (case r of
        Raises \<Rightarrow> Inl ServiceError
      | Content response \<Rightarrow>
          (case extract_json loads response of
             JObj score_data \<Rightarrow>
               (case min_ten (dict_get score_data ''score'' (JInt 5)) of
                  Inl e \<Rightarrow> Inl e
                | Inr m \<Rightarrow>
                    (case max_zero m of
                       Inl e \<Rightarrow> Inl e
                     | Inr clamped \<Rightarrow>
                         (case validate_score clamped of
                            Inl e \<Rightarrow> Inl e
                          | Inr sc \<Rightarrow>
                              (case validate_str (dict_get score_data ''reasoning''
                                      (JStr ''No detailed reasoning provided'')) of
                                 Inl e \<Rightarrow> Inl e
                               | Inr rs \<Rightarrow>
                                   (case validate_str_list (dict_get score_data ''strengths'' (JArr [])) of
                                      Inl e \<Rightarrow> Inl e
                                    | Inr st \<Rightarrow>
                                        (case validate_str_list
                                                (dict_get score_data ''improvements'' (JArr [])) of
                                           Inl e \<Rightarrow> Inl e
                                         | Inr im \<Rightarrow>
                                             Inr \<lparr>score = sc, reasoning = rs, strengths = st,
                                                  improvements = im\<rparr>))))))
           | _ \<Rightarrow> Inl AttributeError))"

text \<open>One attempt of \<^verbatim>\<open>score_answer\<close>: \<^verbatim>\<open>except Exception\<close> returns the rule-based score.\<close>

definition score_answer_once ::
  "(string \<Rightarrow> json option) \<Rightarrow> string \<Rightarrow> string \<Rightarrow> string \<Rightarrow> string \<Rightarrow> pyfloat \<Rightarrow> reply
     \<Rightarrow> py_error + AnswerScore" where
  "score_answer_once loads question answer topic difficulty experience_years r =
     (case score_answer_try loads r of
        Inr s \<Rightarrow> Inr s
      | Inl e \<Rightarrow> Inr (simple_score_answer answer topic difficulty))"

text \<open>
  \<^verbatim>\<open>@retry(stop=stop_after_attempt(3), ...)\<close>: the decorated body runs again after each
  exception, and the third failure raises RetryError. The service is a function from the
  number of the call to what that call does.
\<close>

fun retry :: "nat \<Rightarrow> (reply \<Rightarrow> py_error + 'a) \<Rightarrow> (nat \<Rightarrow> reply) \<Rightarrow> nat \<Rightarrow> py_error + 'a" where
  "retry 0 body service i = Inl RetryError"
| "retry (Suc n) body service i =
     (case body (service i) of Inr v \<Rightarrow> Inr v | Inl e \<Rightarrow> retry n body service (Suc i))"

definition score_answer ::
  "(string \<Rightarrow> json option) \<Rightarrow> (nat \<Rightarrow> reply) \<Rightarrow> string \<Rightarrow> string \<Rightarrow> string \<Rightarrow> string \<Rightarrow> pyfloat
     \<Rightarrow> py_error + AnswerScore" where
  "score_answer loads service question answer topic difficulty experience_years =
     retry 3 (score_answer_once loads question answer topic difficulty experience_years) service 0"

text \<open>
  Python floats are IEEE doubles. A finite double is the rational it denotes, and
  \<open>to_double\<close> rounds a rational to the nearest double, ties to even: 53 significant bits,
  the exponent of the last bit at least -1074 (the subnormal range). \<open>ilog2 q\<close> is the
  exponent of the leading bit of a positive \<open>q\<close>.
\<close>

definition pow2 :: "int \<Rightarrow> rat" where
  "pow2 e = (if e \<ge> 0 then 2 ^ nat e else 1 / 2 ^ nat (- e))"

definition round_half_even :: "rat \<Rightarrow> int" where
  "round_half_even q =
     (let f = \<lfloor>q\<rfloor>; r = q - of_int f in
      if r < 1 / 2 then f else if r > 1 / 2 then f + 1 else if even f then f else f + 1)"

definition ilog2 :: "rat \<Rightarrow> int" where
  "ilog2 q =
     (if q \<ge> 1 then int (floorlog 2 (nat \<lfloor>q\<rfloor>)) - 1
      else - int (floorlog 2 (nat \<lceil>1 / q\<rceil> - 1)))"

definition to_double :: "rat \<Rightarrow> rat" where
  "to_double q =
     (if q = 0 then 0
      else (let e = max (ilog2 \<bar>q\<bar> - 52) (- 1074)
            in sgn q * of_int (round_half_even (\<bar>q\<bar> / pow2 e)) * pow2 e))"

datatype arith_error = ZeroDivisionError | OverflowError

text \<open>
  \<^verbatim>\<open>a / b\<close> on ints: the correctly rounded quotient; OverflowError when it is too large
  for a double.
\<close>

definition py_truediv :: "int \<Rightarrow> int \<Rightarrow> arith_error + rat" where
  "py_truediv a b =
     (if b = 0 then Inl ZeroDivisionError
      else (let x = to_double (of_int a / of_int b)
            in if \<bar>x\<bar> \<ge> 2 ^ 1024 then Inl OverflowError else Inr x))"

text \<open>
  \<^verbatim>\<open>round(x, 1)\<close> on a float: the decimal with one digit nearest to the exact value of
  \<^verbatim>\<open>x\<close> (ties to even), returned as the nearest double.
\<close>

definition py_round1 :: "rat \<Rightarrow> rat" where
  "py_round1 x = to_double (of_int (round_half_even (10 * x)) / 10)"

text \<open>\<^verbatim>\<open>calculate_overall_score\<close>; the dict is given by its items.\<close>

definition calculate_overall_score :: "(string \<times> AnswerScore) list \<Rightarrow> arith_error + rat" where
  "calculate_overall_score scores =
     (if scores = [] then Inr 0
      else (let total_score = sum_list (map (\<lambda>kv. score (snd kv)) scores) in
            case py_truediv total_score (int (length scores)) of
              Inl e \<Rightarrow> Inl e
            | Inr x \<Rightarrow> Inr (py_round1 x)))"

section \<open>core/qa_generator.py\<close>

record QAQuestion =
  topic :: string
  question :: string
  difficulty :: string
  question_id :: "string option"

text \<open>\<^verbatim>\<open>_best_effort_json\<close>; Python's \<^verbatim>\<open>None\<close> is \<^const>\<open>JNull\<close>.\<close>

definition best_effort_json :: "(string \<Rightarrow> json option) \<Rightarrow> string \<Rightarrow> json" where
  "best_effort_json loads text =
     (case loads text of
        Some j \<Rightarrow> j
      | None \<Rightarrow> (case loads_braces loads text of Some j \<Rightarrow> j | None \<Rightarrow> JNull))"

text \<open>
  \<^verbatim>\<open>QAQuestion(**it)\<close> for a dict \<^verbatim>\<open>it\<close>: \<^verbatim>\<open>topic\<close> and \<^verbatim>\<open>question\<close> are required
  strings, \<^verbatim>\<open>difficulty\<close> defaults to medium and must be one of the three literals,
  \<^verbatim>\<open>question_id\<close> is a string or \<^verbatim>\<open>None\<close>; other keys are ignored. \<^const>\<open>None\<close> is a
  ValidationError.
\<close>

definition validate_question :: "(string \<times> json) list \<Rightarrow> QAQuestion option" where
  "validate_question it =
     (case (map_of it ''topic'', map_of it ''question'') of
        (Some (JStr t), Some (JStr q)) \<Rightarrow>
          (case dict_get it ''difficulty'' (JStr ''medium'') of
             JStr d \<Rightarrow>
               if d \<in> set [''easy'', ''medium'', ''hard''] then
                 (case dict_get it ''question_id'' JNull of
                    JNull \<Rightarrow> Some \<lparr>topic = t, question = q, difficulty = d, question_id = None\<rparr>
                  | JStr i \<Rightarrow> Some \<lparr>topic = t, question = q, difficulty = d, question_id = Some i\<rparr>
                  | _ \<Rightarrow> None)
               else None
           | _ \<Rightarrow> None)
      | _ \<Rightarrow> None)"

text \<open>
  The loop over \<^verbatim>\<open>data["items"]\<close>: an element that is not a dict makes \<^verbatim>\<open>**it\<close> raise
  TypeError, which the loop does not catch; a ValidationError skips the element.
\<close>

fun collect_items :: "json list \<Rightarrow> py_error + QAQuestion list" where
  "collect_items [] = Inr []"
| "collect_items (JObj it # rest) =
     (case collect_items rest of
        Inl e \<Rightarrow> Inl e
      | Inr qs \<Rightarrow> (case validate_question it of None \<Rightarrow> Inr qs | Some q \<Rightarrow> Inr (q # qs)))"
| "collect_items (_ # rest) = Inl TypeError"

definition fallback_items :: "string list \<Rightarrow> nat \<Rightarrow> QAQuestion list" where
  "fallback_items stack k =
     (let base = (if stack \<noteq> [] then stack else [''general software engineering''])
      in map (\<lambda>t. \<lparr>topic = t, question = ''Briefly explain core principles of '' @ t @ ''.'',
                   difficulty = ''medium'', question_id = None\<rparr>) (take k base))"

text \<open>The body of \<^verbatim>\<open>generate_stack_questions\<close>, one attempt.\<close>

definition generate_stack_questions_once ::
  "(string \<Rightarrow> json option) \<Rightarrow> string list \<Rightarrow> nat \<Rightarrow> reply \<Rightarrow> py_error + QAQuestion list" where
  "generate_stack_questions_once loads stack0 k r =
     (let stack = map strip (filter (\<lambda>s. s \<noteq> [] \<and> strip s \<noteq> []) stack0) in
      case r of
        Raises \<Rightarrow> Inl ServiceError
      | Content raw \<Rightarrow>
          (case (case best_effort_json loads raw of
                   JObj data \<Rightarrow>
                     (case map_of data ''items'' of
                        Some (JArr its) \<Rightarrow> collect_items its
                      | _ \<Rightarrow> Inr [])
                 | _ \<Rightarrow> Inr []) of
             Inl e \<Rightarrow> Inl e
           | Inr items \<Rightarrow>
               Inr (take k (if items = [] then fallback_items stack k else items))))"

definition generate_stack_questions ::
  "(string \<Rightarrow> json option) \<Rightarrow> (nat \<Rightarrow> reply) \<Rightarrow> string list \<Rightarrow> nat \<Rightarrow> py_error + QAQuestion list" where
  "generate_stack_questions loads service stack k =
     retry 3 (generate_stack_questions_once loads stack k) service 0"

section \<open>app.py\<close>

definition questions_map :: "(string \<times> string) list" where
  "questions_map =
     [(''python'', ''Explain the difference between lists and tuples in Python and when to use each.''),
      (''django'', ''How does Django's ORM work and what are its main advantages?''),
      (''javascript'', ''What is the difference between == and === in JavaScript?''),
      (''react'', ''Explain the component lifecycle in React.''),
      (''sql'', ''What's the difference between INNER JOIN and LEFT JOIN?''),
      (''machine learning'', ''Explain the bias-variance tradeoff in machine learning.''),
      (''data science'', ''How do you handle missing data in a dataset?''),
      (''aws'', ''What are the key differences between EC2 and Lambda?''),
      (''docker'', ''Explain the difference between Docker images and containers.''),
      (''git'', ''What's the difference between merge and rebase in Git?''),
      (''nodejs'', ''Explain the event loop in Node.js.''),
      (''java'', ''What's the difference between abstract classes and interfaces in Java?''),
      (''c++'', ''Explain the concept of RAII in C++.''),
      (''kubernetes'', ''What's the difference between Deployment and StatefulSet?''),
      (''mongodb'', ''Explain the difference between SQL and NoSQL databases.'')]"

text \<open>The inner \<^verbatim>\<open>for key, question in questions_map.items()\<close> loop with its \<^verbatim>\<open>break\<close>.\<close>

fun pick_question :: "(string \<times> string) list \<Rightarrow> string \<Rightarrow> string list \<Rightarrow> string option" where
  "pick_question [] tech_lower used = None"
| "pick_question ((key, q) # rest) tech_lower used =
     (if (str_in key tech_lower \<or> str_in tech_lower key) \<and> q \<notin> set used then Some q
      else pick_question rest tech_lower used)"

text \<open>
  \<^verbatim>\<open>str(uuid.uuid4())[:8]\<close>: the parameter \<open>uuid4\<close> gives the string of the \<open>n\<close>-th
  call, and the counter of calls is threaded through.
\<close>

definition short_id :: "(nat \<Rightarrow> string) \<Rightarrow> nat \<Rightarrow> string" where
  "short_id uuid4 n = take 8 (uuid4 n)"

text \<open>The outer \<^verbatim>\<open>for tech in base[:k]\<close> loop of the \<^verbatim>\<open>except\<close> branch.\<close>

fun enhanced_items ::
  "(nat \<Rightarrow> string) \<Rightarrow> string list \<Rightarrow> string list \<Rightarrow> nat \<Rightarrow> QAQuestion list \<times> nat" where
  "enhanced_items uuid4 [] used n = ([], n)"
| "enhanced_items uuid4 (tech # rest) used n =
     (let tech_lower = strip (lower tech);
          found = pick_question questions_map tech_lower used;
          question_text = (case found of
              Some q \<Rightarrow> q
            | None \<Rightarrow> ''Describe a challenging project you worked on using '' @ tech
                        @ '' and how you solved key problems.'');
          used' = (case found of Some q \<Rightarrow> q # used | None \<Rightarrow> used);
          item = \<lparr>topic = tech, question = question_text, difficulty = ''medium'',
                   question_id = Some (short_id uuid4 n)\<rparr>;
          (items, n') = enhanced_items uuid4 rest used' (Suc n)
      in (item # items, n'))"

text \<open>The \<^verbatim>\<open>while len(items) < k\<close> loop, as the number of items it appends.\<close>

fun pad_items :: "(nat \<Rightarrow> string) \<Rightarrow> nat \<Rightarrow> nat \<Rightarrow> QAQuestion list \<times> nat" where
  "pad_items uuid4 0 n = ([], n)"
| "pad_items uuid4 (Suc m) n =
     (let item = \<lparr>topic = ''general'',
                   question = ''Describe your approach to debugging complex technical issues.'',
                   difficulty = ''medium'', question_id = Some (short_id uuid4 n)\<rparr>;
          (items, n') = pad_items uuid4 m (Suc n)
      in (item # items, n'))"

definition generate_questions_sync ::
  "(string \<Rightarrow> json option) \<Rightarrow> (nat \<Rightarrow> reply) \<Rightarrow> (nat \<Rightarrow> string) \<Rightarrow> nat \<Rightarrow> string list \<Rightarrow> nat
     \<Rightarrow> QAQuestion list \<times> nat" where
  "generate_questions_sync loads service uuid4 n stack k =
     (case generate_stack_questions loads service stack k of
        Inr items \<Rightarrow> (items, n)
      | Inl e \<Rightarrow>
          (let base = (if stack \<noteq> [] then stack else [''general software engineering'']);
               (items, n1) = enhanced_items uuid4 (take k base) [] n;
               (padding, n2) = pad_items uuid4 (k - length items) n1
           in (take k (items @ padding), n2)))"

text \<open>
  The loop of the GENERATE_QA handler that builds \<^verbatim>\<open>questions_data\<close>:
  \<^verbatim>\<open>q.question_id or str(uuid.uuid4())[:8]\<close> draws a token only when the id is
  \<^verbatim>\<open>None\<close> or empty.
\<close>

fun materialize :: "(nat \<Rightarrow> string) \<Rightarrow> nat \<Rightarrow> QAQuestion list \<Rightarrow> question_dict list \<times> nat" where
  "materialize uuid4 n [] = ([], n)"
| "materialize uuid4 n (q # qs) =
     (let supplied = (case question_id q of None \<Rightarrow> [] | Some i \<Rightarrow> i);
          (qid, n1) = (if supplied \<noteq> [] then (supplied, n) else (short_id uuid4 n, Suc n));
          (rest, n2) = materialize uuid4 n1 qs
      in (\<lparr>qd_topic = topic q, qd_question = question q, qd_difficulty = difficulty q,
            qd_question_id = qid\<rparr> # rest, n2))"

text \<open>What the question-generation operation hands to the session: \<^verbatim>\<open>questions_data\<close>.\<close>

definition questions_data ::
  "(string \<Rightarrow> json option) \<Rightarrow> (nat \<Rightarrow> reply) \<Rightarrow> (nat \<Rightarrow> string) \<Rightarrow> string list \<Rightarrow> nat
     \<Rightarrow> question_dict list" where
  "questions_data loads service uuid4 stack k =
     (let (items, n) = generate_questions_sync loads service uuid4 0 stack k
      in fst (materialize uuid4 n items))"

definition INTAKE_STEPS :: "step list" where
  "INTAKE_STEPS = [CONSENT, INTAKE_NAME, INTAKE_EMAIL, INTAKE_PHONE, INTAKE_YOE, INTAKE_POSITION,
     INTAKE_LOCATION, INTAKE_TECH]"

definition consent_words :: "string list" where
  "consent_words = [''agree'', ''yes'', ''ok'', ''proceed'', ''accept'', ''confirm'']"

text \<open>
  \<^verbatim>\<open>EMAIL_RX.match(s)\<close> for \<^verbatim>\<open>^[^@\s]+@[^@\s]+\.[^@\s]+$\<close>: a non-empty run of the
  class, an \<^verbatim>\<open>@\<close>, then a run of the class with a dot that is neither its first nor its
  last character; \<^verbatim>\<open>$\<close> also matches before one final newline.
\<close>

definition rx_char :: "char \<Rightarrow> bool" where
  "rx_char c = (c \<noteq> CHR ''@'' \<and> \<not> is_space c)"

definition email_core :: "string \<Rightarrow> bool" where
  "email_core s =
     (takeWhile rx_char s \<noteq> [] \<and>
      (case dropWhile rx_char s of
         [] \<Rightarrow> False
       | c # d \<Rightarrow> c = CHR ''@'' \<and> list_all rx_char d \<and> CHR ''.'' \<in> set (butlast (tl d))))"

definition EMAIL_RX_match :: "string \<Rightarrow> bool" where
  "EMAIL_RX_match s =
     (email_core s \<or> (s \<noteq> [] \<and> last s = CHR 0x0A \<and> email_core (butlast s)))"

text \<open>\<^verbatim>\<open>s.strip(chars)\<close>.\<close>

definition strip_chars :: "string \<Rightarrow> string \<Rightarrow> string" where
  "strip_chars chars s =
     rev (dropWhile (\<lambda>c. c \<in> set chars) (rev (dropWhile (\<lambda>c. c \<in> set chars) s)))"

text \<open>\<^verbatim>\<open>re.sub(r'[^\d+]', '', val)\<close>: every character that is not a digit or a plus goes.\<close>

definition re_sub_phone :: "string \<Rightarrow> string" where
  "re_sub_phone val = filter (\<lambda>c. is_digit c \<or> c = CHR ''+'') val"

text \<open>\<^verbatim>\<open>0 <= years <= 50\<close>.\<close>

fun in_0_50 :: "pyfloat \<Rightarrow> bool" where
  "in_0_50 (Finite q) = (0 \<le> q \<and> q \<le> 50)"
| "in_0_50 _ = False"

text \<open>\<^verbatim>\<open>[s.strip() for s in val.split(",") if s.strip()]\<close>.\<close>

definition comma_list :: "string \<Rightarrow> string list" where
  "comma_list val = map strip (filter (\<lambda>s. strip s \<noteq> []) (split_comma val))"

text \<open>
  \<^verbatim>\<open>apply_answer_to_step\<close>: the returned flag and the candidate after the call. The
  parameter \<open>float_of\<close> is Python's \<^verbatim>\<open>float\<close> on a string, \<^const>\<open>None\<close> when it raises
  ValueError. The messages of \<^verbatim>\<open>bot_say\<close> go to the history, which is not modelled.
\<close>

definition apply_answer_to_step ::
  "(string \<Rightarrow> pyfloat option) \<Rightarrow> step \<Rightarrow> string \<Rightarrow> Candidate \<Rightarrow> bool \<times> Candidate" where
  "apply_answer_to_step float_of step text c =
     (let val = strip text in
      if step = CONSENT then
        (if list_ex (\<lambda>w. str_in w (lower val)) consent_words
         then (True, c\<lparr>consent_given := True\<rparr>) else (False, c))
      else if step = INTAKE_NAME then
        (if val \<noteq> [] \<and> length (strip val) \<ge> 2
         then (True, c\<lparr>full_name := Some (strip val)\<rparr>) else (False, c))
      else if step = INTAKE_EMAIL then
        (let candidate_input = lower (strip_chars '',. '' (strip val)) in
         if EMAIL_RX_match candidate_input
         then (True, c\<lparr>email := Some candidate_input\<rparr>) else (False, c))
      else if step = INTAKE_PHONE then
        (let cleaned_phone = re_sub_phone val in
         if length cleaned_phone \<ge> 6 \<and> (startswith cleaned_phone ''+'' \<or> isdigit cleaned_phone)
         then (True, c\<lparr>phone := Some cleaned_phone\<rparr>) else (False, c))
      else if step = INTAKE_YOE then
        (case float_of (map (\<lambda>ch. if ch = CHR '','' then CHR ''.'' else ch) val) of
           Some years \<Rightarrow>
             if in_0_50 years then (True, c\<lparr>years_experience := Some years\<rparr>) else (False, c)
         | None \<Rightarrow> (False, c))
      else if step = INTAKE_POSITION then
        (if val \<noteq> [] \<and> length (strip val) \<ge> 2
         then (True, c\<lparr>desired_positions := comma_list val\<rparr>) else (False, c))
      else if step = INTAKE_LOCATION then
        (if val \<noteq> [] \<and> length (strip val) \<ge> 2
         then (True, c\<lparr>current_location := Some (strip val)\<rparr>) else (False, c))
      else if step = INTAKE_TECH then
        (if val \<noteq> [] \<and> length (strip val) \<ge> 2
         then (True, c\<lparr>tech_stack := comma_list val\<rparr>) else (False, c))
      else (False, c))"

record ConversationState =
  step :: step
  exit_detected :: bool
  current_question_index :: nat
  questions_asked :: bool

text \<open>
  \<^verbatim>\<open>st.session_state\<close>: the candidate, the conversation state and the two entries of the
  question phase. The message history is left out.
\<close>

record session =
  candidate :: Candidate
  state :: ConversationState
  questions_generated :: bool
  generated_questions :: "question_dict list"

text \<open>
  What is outside the program during one run of the script: \<^verbatim>\<open>json.loads\<close>,
  \<^verbatim>\<open>float\<close>, the text-generation service as seen by the generator and by the scorer, and
  \<^verbatim>\<open>uuid.uuid4\<close>.
\<close>

record world =
  w_loads :: "string \<Rightarrow> json option"
  w_float :: "string \<Rightarrow> pyfloat option"
  w_gen_service :: "nat \<Rightarrow> reply"
  w_score_service :: "nat \<Rightarrow> reply"
  w_uuid4 :: "nat \<Rightarrow> string"

text \<open>
  \<^verbatim>\<open>handle_technical_answer\<close>. Every dict of \<^verbatim>\<open>generated_questions\<close> has the key
  \<^verbatim>\<open>question_id\<close>, so the default of \<^verbatim>\<open>question.get\<close> is never used. The \<^verbatim>\<open>except\<close>
  branch around the scoring call uses the rule-based scorer; the one around the overall
  score leaves \<^verbatim>\<open>overall_score\<close> as it was.
\<close>

definition handle_technical_answer :: "world \<Rightarrow> string \<Rightarrow> session \<Rightarrow> bool \<times> session" where
  "handle_technical_answer w text s =
     (if text = [] \<or> length (strip text) < 10 then (False, s)
      else
        (let current_idx = current_question_index (state s);
             questions = generated_questions s
         in if current_idx < length questions then
              (let q = questions ! current_idx;
                   qid = qd_question_id q;
                   c0 = candidate s;
                   c1 = c0\<lparr>technical_answers := AList.update qid (strip text) (technical_answers c0)\<rparr>;
                   score_result =
                     (case score_answer (w_loads w) (w_score_service w) (qd_question q) (strip text)
                             (qd_topic q) (qd_difficulty q)
                             (case years_experience c0 of None \<Rightarrow> Finite 0 | Some y \<Rightarrow> y) of
                        Inr r \<Rightarrow> r
                      | Inl e \<Rightarrow> simple_score_answer (strip text) (qd_topic q) (qd_difficulty q));
                   c2 = c1\<lparr>answer_scores := AList.update qid score_result (answer_scores c1)\<rparr>;
                   st1 = (state s)\<lparr>current_question_index := current_idx + 1\<rparr>
               in if current_idx + 1 < length questions then
                    (True, s\<lparr>candidate := c2, state := st1\<rparr>)
                  else
                    (let c3 = (case calculate_overall_score (answer_scores c2) of
                                 Inr v \<Rightarrow> c2\<lparr>overall_score := Some v\<rparr>
                               | Inl e \<Rightarrow> c2)
                     in (True, s\<lparr>candidate := c3, state := st1\<lparr>step := FOLLOWUP\<rparr>\<rparr>)))
            else (False, s)))"

text \<open>The branch \<^verbatim>\<open>if current_step in INTAKE_STEPS\<close> of the prompt handler.\<close>

definition intake_turn :: "world \<Rightarrow> string \<Rightarrow> session \<Rightarrow> session" where
  "intake_turn w prompt s =
     (case apply_answer_to_step (w_float w) (step (state s)) prompt (candidate s) of
        (True, c') \<Rightarrow> s\<lparr>candidate := c', state := (state s)\<lparr>step := next_step c' (state s)\<rparr>\<rparr>
      | (False, c') \<Rightarrow> s\<lparr>candidate := c'\<rparr>)"

text \<open>The handler \<^verbatim>\<open>if prompt:\<close> of the script.\<close>

definition process_prompt :: "world \<Rightarrow> string \<Rightarrow> session \<Rightarrow> session" where
  "process_prompt w prompt s =
     (if detect_exit prompt then s\<lparr>state := (state s)\<lparr>exit_detected := True, step := END\<rparr>\<rparr>
      else
        (let current_step = step (state s) in
         if current_step \<in> set INTAKE_STEPS then intake_turn w prompt s
         else if current_step = TECHNICAL_QA then snd (handle_technical_answer w prompt s)
         else if current_step = FOLLOWUP then
           s\<lparr>candidate := (candidate s)\<lparr>additional_comments := Some (strip prompt)\<rparr>\<rparr>
         else s))"

text \<open>
  The GENERATE_QA handler. \<^verbatim>\<open>questions_data[0]\<close> raises on an empty list, after the
  two assignments; the \<^verbatim>\<open>except\<close> branch then moves to FOLLOWUP.
\<close>

definition generate_handler :: "world \<Rightarrow> session \<Rightarrow> session" where
  "generate_handler w s =
     (if step (state s) = GENERATE_QA \<and> \<not> questions_generated s then
        (let qd = questions_data (w_loads w) (w_gen_service w) (w_uuid4 w) (tech_stack (candidate s)) 5;
             s1 = s\<lparr>generated_questions := qd,
                    candidate := (candidate s)\<lparr>technical_questions := qd\<rparr>\<rparr>
         in if qd = [] then s1\<lparr>state := (state s1)\<lparr>step := FOLLOWUP\<rparr>\<rparr>
            else s1\<lparr>questions_generated := True,
                    state := (state s1)\<lparr>step := TECHNICAL_QA, current_question_index := 0\<rparr>\<rparr>)
      else s)"

text \<open>
  One run of the script on a user message: the prompt handler, then the GENERATE_QA
  handler (in the same run, or in the run \<^verbatim>\<open>st.rerun()\<close> starts).
\<close>

definition script_run :: "world \<Rightarrow> string \<Rightarrow> session \<Rightarrow> session" where
  "script_run w prompt s = generate_handler w (if prompt = [] then s else process_prompt w prompt s)"

text \<open>The session after \<^verbatim>\<open>initialize_session\<close>.\<close>

definition new_candidate :: Candidate where
  "new_candidate =
     \<lparr>full_name = None, email = None, phone = None, years_experience = None,
      desired_positions = [], current_location = None, tech_stack = [], consent_given = False,
      technical_questions = [], technical_answers = [], answer_scores = [],
      overall_score = None, additional_comments = None\<rparr>"

definition initial_session :: session where
  "initial_session =
     \<lparr>candidate = new_candidate,
      state = \<lparr>step = CONSENT, exit_detected = False, current_question_index = 0,
               questions_asked = False\<rparr>,
      questions_generated = False, generated_questions = []\<rparr>"

inductive reachable :: "session \<Rightarrow> bool" where
  reachable_init: "reachable initial_session"
| reachable_run: "reachable s \<Longrightarrow> reachable (script_run w prompt s)"

section \<open>The claims' wording of the rule-based scorer\<close>

definition base_score :: "nat \<Rightarrow> int" where
  "base_score n = (if n < 20 then 3 else if n < 50 then 5 else if n < 150 then 7 else 8)"

definition adjust_for_difficulty :: "string \<Rightarrow> int \<Rightarrow> int" where
  "adjust_for_difficulty d b =
     (if d = ''easy'' \<and> b \<ge> 6 then min 10 (b + 1)
      else if d = ''hard'' \<and> b \<le> 7 then max 1 (b - 1)
      else b)"

definition bucket_reasoning :: "nat \<Rightarrow> string" where
  "bucket_reasoning n =
     (if n < 20 then ''Answer is too brief for a technical question''
      else if n < 50 then ''Answer has basic content but lacks depth''
      else if n < 150 then ''Good comprehensive answer with adequate detail''
      else ''Comprehensive and detailed answer'')"

definition bucket_strengths :: "nat \<Rightarrow> string list" where
  "bucket_strengths n =
     (if n < 20 then []
      else if n < 50 then [''Clear and concise'']
      else if n < 150 then [''Well-structured response'', ''Good level of detail'']
      else [''Thorough explanation'', ''Good depth of knowledge''])"

definition bucket_improvements :: "nat \<Rightarrow> string list" where
  "bucket_improvements n =
     (if n < 20 then [''Provide more detailed explanation'', ''Include examples or use cases'']
      else if n < 50 then [''Add more technical details'', ''Explain the reasoning behind your answer'']
      else if n < 150 then [''Could include more specific examples'']
      else [''Excellent detail level''])"

section \<open>The claims' wording of the phone value\<close>

text \<open>Only digits, with at most one plus, which is then the first character.\<close>

definition digits_with_leading_plus :: "string \<Rightarrow> bool" where
  "digits_with_leading_plus s =
     (case s of [] \<Rightarrow> True | c # cs \<Rightarrow> (is_digit c \<or> c = CHR ''+'') \<and> list_all is_digit cs)"

section \<open>Concrete inputs\<close>

text \<open>A world in which every outside call fails.\<close>

definition failing_world :: world where
  "failing_world =
     \<lparr>w_loads = (\<lambda>t. None), w_float = (\<lambda>t. None), w_gen_service = (\<lambda>i. Raises),
      w_score_service = (\<lambda>i. Raises), w_uuid4 = (\<lambda>n. ''0f8fad5b-d9cb-469f-a165-70867728950e'')\<rparr>"

text \<open>A session waiting for the phone number.\<close>

definition phone_session :: session where
  "phone_session = initial_session\<lparr>state := (state initial_session)\<lparr>step := INTAKE_PHONE\<rparr>\<rparr>"

text \<open>
  What \<^verbatim>\<open>json.loads\<close> returns on a reply of the service with two items that carry the
  same \<^verbatim>\<open>question_id\<close>.
\<close>

definition two_same_ids :: json where
  "two_same_ids = JObj [(''items'', JArr
     [JObj [(''topic'', JStr ''python''), (''question'', JStr ''What is a list?''),
            (''difficulty'', JStr ''easy''), (''question_id'', JStr ''q1'')],
      JObj [(''topic'', JStr ''sql''), (''question'', JStr ''What is a join?''),
            (''difficulty'', JStr ''medium''), (''question_id'', JStr ''q1'')]])]"

section \<open>The invariant of the session\<close>

text \<open>The keys of a dict, and the ids of the questions of a candidate.\<close>

definition keys :: "('k \<times> 'v) list \<Rightarrow> 'k set" where
  "keys d = fst ` set d"

definition question_ids :: "Candidate \<Rightarrow> string set" where
  "question_ids c = set (map qd_question_id (technical_questions c))"

text \<open>
  What holds in every reachable session: the answers and the scores are keyed by ids of
  the candidate's questions, the two copies of the question list agree, and nothing is
  answered or scored before the questions are generated.
\<close>

definition session_inv :: "session \<Rightarrow> bool" where
  "session_inv s =
     (keys (technical_answers (candidate s)) \<subseteq> question_ids (candidate s)
      \<and> keys (answer_scores (candidate s)) \<subseteq> question_ids (candidate s)
      \<and> generated_questions s = technical_questions (candidate s)
      \<and> (if step (state s) \<in> set INTAKE_STEPS \<union> {GENERATE_QA}
         then technical_answers (candidate s) = [] \<and> answer_scores (candidate s) = []
         else True))"

text \<open>
  A session that went through the whole intake, with a service that always raises, and
  then answered the first question.
\<close>

definition demo_world :: world where
  "demo_world =
     \<lparr>w_loads = (\<lambda>t. None),
      w_float = (\<lambda>t. if t = ''4'' then Some (Finite 4) else None),
      w_gen_service = (\<lambda>i. Raises),
      w_score_service = (\<lambda>i. Raises),
      w_uuid4 = (\<lambda>n. replicate 8 (char_of (48 + n)) @ ''-d9cb-469f-a165-70867728950e'')\<rparr>"

definition intake_done_session :: session where
  "intake_done_session =
     script_run demo_world ''python, sql''
       (script_run demo_world ''Berlin''
         (script_run demo_world ''Data Scientist''
           (script_run demo_world ''4''
             (script_run demo_world ''+123456''
               (script_run demo_world ''jane@x.com''
                 (script_run demo_world ''Jane Doe''
                   (script_run demo_world ''I agree'' initial_session)))))))"

definition answered_session :: session where
  "answered_session =
     script_run demo_world ''A list is mutable, a tuple is not.'' intake_done_session"

section \<open>The claims' wording of the overall score\<close>

text \<open>The arithmetic mean of the score fields, as an exact rational.\<close>

definition mean_score :: "(string \<times> AnswerScore) list \<Rightarrow> rat" where
  "mean_score scores = of_int (sum_list (map (\<lambda>kv. score (snd kv)) scores)) / of_nat (length scores)"

text \<open>Every score is in the range that \<^verbatim>\<open>Field(ge=0, le=10)\<close> of \<^verbatim>\<open>AnswerScore\<close> admits.\<close>

definition valid_scores :: "(string \<times> AnswerScore) list \<Rightarrow> bool" where
  "valid_scores scores = list_all (\<lambda>kv. 0 \<le> score (snd kv) \<and> score (snd kv) \<le> 10) scores"

text \<open>An \<^verbatim>\<open>AnswerScore\<close> with a given score, for the examples.\<close>

definition scored :: "int \<Rightarrow> AnswerScore" where
  "scored n = \<lparr>score = n, reasoning = ''ok'', strengths = [], improvements = []\<rparr>"

section \<open>Properties\<close>

subsection \<open>Strings\<close>

lemma startswith_iff: "startswith s p \<longleftrightarrow> (\<exists>post. s = p @ post)"
  by (induction s p rule: startswith.induct) auto

lemma str_in_iff: "str_in k t \<longleftrightarrow> (\<exists>pre post. t = pre @ k @ post)"
proof (induction t)
  case Nil
  then show ?case by auto
next
  case (Cons c cs)
  show ?case
  proof
    assume "str_in k (c # cs)"
    then consider "startswith (c # cs) k" | "str_in k cs" by auto
    then show "\<exists>pre post. c # cs = pre @ k @ post"
    proof cases
      case 1
      then obtain post where "c # cs = k @ post" by (auto simp: startswith_iff)
      then have "c # cs = [] @ k @ post" by simp
      then show ?thesis by blast
    next
      case 2
      then obtain pre post where "cs = pre @ k @ post" using Cons.IH by auto
      then have "c # cs = (c # pre) @ k @ post" by simp
      then show ?thesis by blast
    qed
  next
    assume "\<exists>pre post. c # cs = pre @ k @ post"
    then obtain pre post where e: "c # cs = pre @ k @ post" by blast
    show "str_in k (c # cs)"
    proof (cases pre)
      case Nil
      with e have "startswith (c # cs) k" by (auto simp: startswith_iff)
      then show ?thesis by simp
    next
      case (Cons p pre')
      with e have "cs = pre' @ k @ post" by simp
      then have "str_in k cs" using Cons.IH by blast
      then show ?thesis by simp
    qed
  qed
qed

lemma list_all_dropWhile: "list_all P (dropWhile P s) \<longleftrightarrow> list_all P s"
  by (induction s) auto

lemma strip_empty_iff: "strip s = [] \<longleftrightarrow> list_all is_space s"
proof -
  have "strip s = [] \<longleftrightarrow> list_all is_space (dropWhile is_space s)"
    by (simp add: strip_def dropWhile_eq_Nil_conv list_all_iff)
  then show ?thesis by (simp add: list_all_dropWhile)
qed

subsection \<open>The state machine\<close>

text \<open>
  C5. \<^verbatim>\<open>detect_exit\<close> is true exactly when the lowercased, trimmed text has one of the
  eight keywords as a substring; it is true on "please exit now", "bye" and "QUIT" and
  false on "hello".
\<close>

theorem detect_exit_substring:
  "(\<forall>t. detect_exit t \<longleftrightarrow>
      (\<exists>kw pre post. kw \<in> {''quit'', ''exit'', ''bye'', ''stop'', ''goodbye'', ''end'', ''finish'', ''done''}
         \<and> lower (strip t) = pre @ kw @ post))
   \<and> detect_exit ''please exit now'' \<and> detect_exit ''bye'' \<and> detect_exit ''QUIT''
   \<and> \<not> detect_exit ''hello''"
proof -
  have general: "detect_exit t \<longleftrightarrow>
      (\<exists>kw pre post. kw \<in> {''quit'', ''exit'', ''bye'', ''stop'', ''goodbye'', ''end'', ''finish'', ''done''}
         \<and> lower (strip t) = pre @ kw @ post)" for t
  proof (cases "t = []")
    case True
    then show ?thesis by (auto simp: detect_exit_def strip_def lower_def)
  next
    case False
    have "lower (strip t) \<in> set EXIT_KEYWORDS
        \<Longrightarrow> \<exists>kw \<in> set EXIT_KEYWORDS. str_in kw (lower (strip t))"
      unfolding str_in_iff by (metis append_Nil append_Nil2)
    with False have "detect_exit t \<longleftrightarrow> (\<exists>kw \<in> set EXIT_KEYWORDS. str_in kw (lower (strip t)))"
      by (auto simp: detect_exit_def Let_def list_ex_iff)
    also have "\<dots> \<longleftrightarrow> (\<exists>kw pre post. kw \<in> set EXIT_KEYWORDS \<and> lower (strip t) = pre @ kw @ post)"
      by (auto simp: str_in_iff)
    finally show ?thesis by (simp add: EXIT_KEYWORDS_def)
  qed
  have e1: "detect_exit ''please exit now''" by code_simp
  have e2: "detect_exit ''bye''" by code_simp
  have e3: "detect_exit ''QUIT''" by code_simp
  have e4: "\<not> detect_exit ''hello''" by code_simp
  from general e1 e2 e3 e4 show ?thesis by blast
qed

lemma is_empty_opt_str: "is_empty_val (opt_str v) = unset_str v"
  by (cases v) (simp_all add: opt_str_def unset_str_def blank_def strip_empty_iff)

text \<open>
  C4. \<^verbatim>\<open>next_step\<close> returns CONSENT without consent; otherwise the step of the first of
  full_name, email, phone, years_experience, desired_positions, current_location,
  tech_stack that is unset (None, an empty sequence or a blank string); and GENERATE_QA
  when all seven are set.
\<close>

theorem next_step_first_unset: "next_step c st = next_step_spec c"
  by (simp add: next_step_def next_step_spec_def INTAKE_ORDER_def is_empty_opt_str
      split: option.splits)

subsection \<open>The answer scorer\<close>

lemma simple_score_table:
  "score (simple_score_answer a t d) =
     (let n = length (strip a) in
      if n < 20 then (if d = ''hard'' then 2 else 3)
      else if n < 50 then (if d = ''hard'' then 4 else 5)
      else if n < 150 then (if d = ''easy'' then 8 else if d = ''hard'' then 6 else 7)
      else (if d = ''easy'' then 9 else 8))"
  by (simp add: simple_score_answer_def Let_def)

lemma simple_score_range:
  "2 \<le> score (simple_score_answer a t d) \<and> score (simple_score_answer a t d) \<le> 9"
  by (simp add: simple_score_table Let_def)

text \<open>
  C7. The rule-based scorer: the base score is 3, 5, 7 or 8 by the length of the trimmed
  answer (below 20, below 50, below 150, otherwise); it goes up by one, capped at 10, for
  an easy question with a base of at least 6, and down by one, floored at 1, for a hard
  question with a base of at most 7; the reasoning, strengths and improvements are the
  fixed ones of the length bucket.
\<close>

theorem simple_score_answer_rule:
  "simple_score_answer a t d =
     \<lparr>score = adjust_for_difficulty d (base_score (length (strip a))),
      reasoning = bucket_reasoning (length (strip a)),
      strengths = bucket_strengths (length (strip a)),
      improvements = bucket_improvements (length (strip a))\<rparr>"
  by (simp add: simple_score_answer_def Let_def base_score_def adjust_for_difficulty_def
      bucket_reasoning_def bucket_strengths_def bucket_improvements_def)

lemma in_range_Inr: "in_range i = Inr j \<Longrightarrow> 0 \<le> j \<and> j \<le> 10"
  by (auto simp: in_range_def split: if_splits)

lemma validate_score_range: "validate_score j = Inr i \<Longrightarrow> 0 \<le> i \<and> i \<le> 10"
  by (induction j rule: validate_score.induct) (auto dest: in_range_Inr split: if_splits)

lemma score_answer_try_range:
  "score_answer_try loads r = Inr s \<Longrightarrow> 0 \<le> score s \<and> score s \<le> 10"
  unfolding score_answer_try_def
  by (auto split: reply.splits json.splits sum.splits dest: validate_score_range)

lemma score_answer_once_Inr:
  "\<exists>s. score_answer_once loads q a t d e r = Inr s \<and> 0 \<le> score s \<and> score s \<le> 10"
proof (cases "score_answer_try loads r")
  case (Inl err)
  have "0 \<le> score (simple_score_answer a t d) \<and> score (simple_score_answer a t d) \<le> 10"
    using simple_score_range [of a t d] by linarith
  with Inl show ?thesis by (simp add: score_answer_once_def)
next
  case (Inr s)
  with score_answer_try_range [OF Inr] show ?thesis by (simp add: score_answer_once_def)
qed

text \<open>
  C6. Whatever the service does on each call (it raises, or returns well-formed JSON, JSON
  inside prose, or no JSON at all) and whatever \<^verbatim>\<open>json.loads\<close> makes of the text,
  \<^verbatim>\<open>score_answer\<close> returns an \<^verbatim>\<open>AnswerScore\<close> and raises nothing; the score is between
  0 and 10, the reasoning is a string and the strengths and improvements are lists of
  strings (by the type of the record).
\<close>

theorem score_answer_always_scores:
  "\<exists>s. score_answer loads service q a t d e = Inr s \<and> 0 \<le> score s \<and> score s \<le> 10"
proof -
  obtain s where s: "score_answer_once loads q a t d e (service 0) = Inr s"
    and r: "0 \<le> score s \<and> score s \<le> 10"
    using score_answer_once_Inr by blast
  have "score_answer loads service q a t d e = Inr s"
    unfolding score_answer_def using s by (simp add: numeral_3_eq_3)
  with r show ?thesis by blast
qed

subsection \<open>The intake rules\<close>

lemma filter_dropWhile_disjoint:
  "(\<And>x. Q x \<Longrightarrow> \<not> P x) \<Longrightarrow> filter P (dropWhile Q xs) = filter P xs"
  by (induction xs) auto

lemma phone_chars_not_space: "is_space ch \<Longrightarrow> \<not> (is_digit ch \<or> ch = CHR ''+'')"
  by (auto simp: is_space_def is_digit_def Let_def)

lemma re_sub_phone_strip: "re_sub_phone (strip t) = re_sub_phone t"
proof -
  let ?P = "\<lambda>c. is_digit c \<or> c = CHR ''+''"
  have "filter ?P (strip t) = rev (filter ?P (dropWhile is_space (rev (dropWhile is_space t))))"
    by (simp add: strip_def rev_filter)
  also have "\<dots> = rev (filter ?P (rev (dropWhile is_space t)))"
    using phone_chars_not_space by (subst filter_dropWhile_disjoint) auto
  also have "\<dots> = filter ?P (dropWhile is_space t)"
    by (simp add: rev_filter)
  also have "\<dots> = filter ?P t"
    using phone_chars_not_space by (subst filter_dropWhile_disjoint) auto
  finally show ?thesis by (simp add: re_sub_phone_def)
qed

lemma startswith_plus: "startswith s ''+'' \<longleftrightarrow> (s \<noteq> [] \<and> hd s = CHR ''+'')"
  by (cases s) auto

text \<open>
  C2, as stated, fails: the substitution keeps every plus, not only a leading one, so
  the input \<^verbatim>\<open>+1+2+3+4\<close> is accepted and committed with four plus signs.
\<close>

theorem phone_step_keeps_every_plus:
  "apply_answer_to_step (\<lambda>s. None) INTAKE_PHONE ''+1+2+3+4'' new_candidate
     = (True, new_candidate\<lparr>phone := Some ''+1+2+3+4''\<rparr>)
   \<and> \<not> digits_with_leading_plus ''+1+2+3+4''"
  by code_simp

text \<open>
  C2, amended. At the phone step the validator removes from the raw input every character
  that is not a digit or a plus (a plus is kept wherever it stands); it accepts exactly
  when the result has at least 6 characters and is all digits or starts with a plus; on
  acceptance the committed phone is that result, made of digits and plus signs only; on
  rejection the candidate is unchanged.
\<close>

theorem phone_step_rule:
  assumes "apply_answer_to_step float_of INTAKE_PHONE t c = (accepted, c')"
    and "cleaned = filter (\<lambda>ch. is_digit ch \<or> ch = CHR ''+'') t"
  shows "(accepted \<longleftrightarrow> length cleaned \<ge> 6 \<and> (list_all is_digit cleaned \<or> hd cleaned = CHR ''+''))
       \<and> (if accepted then c' = c\<lparr>phone := Some cleaned\<rparr> else c' = c)
       \<and> list_all (\<lambda>ch. is_digit ch \<or> ch = CHR ''+'') cleaned"
proof -
  have cl: "re_sub_phone (strip t) = cleaned"
    using assms(2) by (simp add: re_sub_phone_strip) (simp add: re_sub_phone_def)
  have "length cleaned \<ge> 6 \<Longrightarrow> cleaned \<noteq> []" by auto
  then have acc: "(length cleaned \<ge> 6 \<and> (startswith cleaned ''+'' \<or> isdigit cleaned))
      \<longleftrightarrow> (length cleaned \<ge> 6 \<and> (list_all is_digit cleaned \<or> hd cleaned = CHR ''+''))"
    by (auto simp: startswith_plus isdigit_def)
  have "list_all (\<lambda>ch. is_digit ch \<or> ch = CHR ''+'') cleaned"
    using assms(2) by (simp add: list_all_iff)
  moreover have "apply_answer_to_step float_of INTAKE_PHONE t c =
      (if length cleaned \<ge> 6 \<and> (startswith cleaned ''+'' \<or> isdigit cleaned)
       then (True, c\<lparr>phone := Some cleaned\<rparr>) else (False, c))"
    by (simp add: apply_answer_to_step_def Let_def cl)
  ultimately show ?thesis using assms(1) acc by (auto split: if_splits)
qed

theorem phone_step_rule_witness:
  "apply_answer_to_step (\<lambda>s. None) INTAKE_PHONE ''+1 (234) 567-8901'' new_candidate
     = (True, new_candidate\<lparr>phone := Some ''+12345678901''\<rparr>)
   \<and> ''+12345678901'' = filter (\<lambda>ch. is_digit ch \<or> ch = CHR ''+'') ''+1 (234) 567-8901''
   \<and> length ''+12345678901'' \<ge> 6 \<and> hd ''+12345678901'' = CHR ''+''
   \<and> list_all (\<lambda>ch. is_digit ch \<or> ch = CHR ''+'') ''+12345678901''"
proof -
  have a: "apply_answer_to_step (\<lambda>s. None) INTAKE_PHONE ''+1 (234) 567-8901'' new_candidate
     = (True, new_candidate\<lparr>phone := Some ''+12345678901''\<rparr>)" by code_simp
  have b: "''+12345678901'' = filter (\<lambda>ch. is_digit ch \<or> ch = CHR ''+'') ''+1 (234) 567-8901''"
    by code_simp
  from phone_step_rule [OF a b] a b show ?thesis by simp
qed

lemma apply_rejected_unchanged:
  "apply_answer_to_step float_of stp t c = (False, c') \<Longrightarrow> c' = c"
  by (auto simp: apply_answer_to_step_def Let_def split: if_splits option.splits)

lemma accepted_input_moves:
  "apply_answer_to_step (w_float w) (step (state s)) prompt (candidate s) = (True, c')
     \<Longrightarrow> intake_turn w prompt s = s\<lparr>candidate := c', state := (state s)\<lparr>step := next_step c' ()\<rparr>\<rparr>"
  by (simp add: intake_turn_def next_step_def)

text \<open>
  C10. At each of the eight intake steps, an input that the step's rule rejects leaves
  the session as it was after the intake handler: no field of the candidate changes and
  the step stays. Over the whole prompt handler the candidate is unchanged as well, and
  the step too unless the input holds an exit keyword, which the handler tests before
  any rule and answers with END. So the intake handler changes the candidate or the
  step only on an accepted input.
\<close>

theorem rejected_input_changes_nothing:
  assumes "stp \<in> set INTAKE_STEPS" and "step (state s) = stp"
    and "\<not> fst (apply_answer_to_step (w_float w) stp prompt (candidate s))"
  shows "intake_turn w prompt s = s
       \<and> candidate (process_prompt w prompt s) = candidate s
       \<and> (if detect_exit prompt then step (state (process_prompt w prompt s)) = END
          else process_prompt w prompt s = s)"
proof -
  obtain c' where a: "apply_answer_to_step (w_float w) stp prompt (candidate s) = (False, c')"
    using assms(3) by (cases "apply_answer_to_step (w_float w) stp prompt (candidate s)") auto
  then have "c' = candidate s" by (rule apply_rejected_unchanged)
  with a assms(2) have t: "intake_turn w prompt s = s" by (simp add: intake_turn_def)
  with assms(1,2) show ?thesis by (simp add: process_prompt_def Let_def)
qed

theorem rejected_input_changes_nothing_witness:
  "INTAKE_PHONE \<in> set INTAKE_STEPS \<and> step (state phone_session) = INTAKE_PHONE
   \<and> \<not> fst (apply_answer_to_step (w_float failing_world) INTAKE_PHONE ''12-34'' (candidate phone_session))
   \<and> intake_turn failing_world ''12-34'' phone_session = phone_session
   \<and> candidate (process_prompt failing_world ''12-34'' phone_session) = candidate phone_session
   \<and> \<not> detect_exit ''12-34''
   \<and> process_prompt failing_world ''12-34'' phone_session = phone_session"
proof -
  have a: "INTAKE_PHONE \<in> set INTAKE_STEPS" by (simp add: INTAKE_STEPS_def)
  have b: "step (state phone_session) = INTAKE_PHONE" by (simp add: phone_session_def)
  have c: "\<not> fst (apply_answer_to_step (w_float failing_world) INTAKE_PHONE ''12-34''
      (candidate phone_session))" by code_simp
  have d: "\<not> detect_exit ''12-34''" by code_simp
  from rejected_input_changes_nothing [OF a b c] a b c d show ?thesis by simp
qed

subsection \<open>The question generator\<close>

lemma length_enhanced_items: "length (fst (enhanced_items u xs used n)) = length xs"
proof (induction xs arbitrary: used n)
  case Nil
  show ?case by simp
next
  case (Cons tech rest)
  define used' where "used' = (case pick_question questions_map (strip (lower tech)) used of
      Some q \<Rightarrow> q # used | None \<Rightarrow> used)"
  obtain items n' where e: "enhanced_items u rest used' (Suc n) = (items, n')"
    by (cases "enhanced_items u rest used' (Suc n)")
  have "length items = length rest" using Cons.IH [of used' "Suc n"] e by simp
  then show ?case using e by (simp add: Let_def used'_def)
qed

lemma length_pad_items: "length (fst (pad_items u m n)) = m"
proof (induction m arbitrary: n)
  case 0
  show ?case by simp
next
  case (Suc m)
  obtain items n' where e: "pad_items u m (Suc n) = (items, n')"
    by (cases "pad_items u m (Suc n)")
  have "length items = m" using Suc.IH [of "Suc n"] e by simp
  then show ?case using e by (simp add: Let_def)
qed

lemma length_materialize: "length (fst (materialize u n qs)) = length qs"
proof (induction qs arbitrary: n)
  case Nil
  show ?case by simp
next
  case (Cons q qs)
  define n1 where "n1 = (if (case question_id q of None \<Rightarrow> [] | Some i \<Rightarrow> i) \<noteq> [] then n else Suc n)"
  obtain rest n2 where e: "materialize u n1 qs = (rest, n2)"
    by (cases "materialize u n1 qs")
  have "length rest = length qs" using Cons.IH [of n1] e by simp
  then show ?case using e by (simp add: Let_def n1_def split: if_splits)
qed

lemma retry_all_fail:
  "(\<And>i. body (service i) = Inl (err i)) \<Longrightarrow> \<exists>e. retry n body service i = Inl e"
  by (induction n arbitrary: i) auto

text \<open>
  The sibling path: when every call of the service raises, the \<^verbatim>\<open>except\<close> branch of
  \<^verbatim>\<open>generate_questions_sync\<close> pads its list, and the operation returns exactly \<open>k\<close>
  questions.
\<close>

lemma sync_total_failure_length:
  "length (fst (generate_questions_sync loads (\<lambda>i. Raises) u n stack k)) = k"
proof -
  have "\<exists>e. generate_stack_questions loads (\<lambda>i. Raises) stack k = Inl e"
    unfolding generate_stack_questions_def
    by (rule retry_all_fail [where err = "\<lambda>i. ServiceError"])
       (simp add: generate_stack_questions_once_def)
  then obtain e where e: "generate_stack_questions loads (\<lambda>i. Raises) stack k = Inl e" by blast
  define base where "base = (if stack \<noteq> [] then stack else [''general software engineering''])"
  obtain items n1 where i: "enhanced_items u (take k base) [] n = (items, n1)"
    by (cases "enhanced_items u (take k base) [] n")
  obtain padding n2 where p: "pad_items u (k - length items) n1 = (padding, n2)"
    by (cases "pad_items u (k - length items) n1")
  have li: "length items = min (length base) k"
    using length_enhanced_items [of u "take k base" "[]" n] i by simp
  have lp: "length padding = k - length items"
    using length_pad_items [of u "k - length items" n1] p by simp
  have "generate_questions_sync loads (\<lambda>i. Raises) u n stack k = (take k (items @ padding), n2)"
    using i p by (simp add: generate_questions_sync_def e Let_def base_def)
  then show ?thesis using li lp by simp
qed

lemma questions_data_total_failure_length:
  "length (questions_data loads (\<lambda>i. Raises) u stack k) = k"
proof -
  obtain items n where g: "generate_questions_sync loads (\<lambda>i. Raises) u 0 stack k = (items, n)"
    by (cases "generate_questions_sync loads (\<lambda>i. Raises) u 0 stack k")
  have "length items = k" using sync_total_failure_length [of loads u 0 stack k] g by simp
  then show ?thesis by (simp add: questions_data_def g length_materialize)
qed

text \<open>
  C1 at a failing input. The stack is \<^verbatim>\<open>["python"]\<close>, \<open>k\<close> is 5, and the service
  answers every call with prose that holds no JSON. No call raises, so
  \<^verbatim>\<open>generate_stack_questions\<close> returns the list of \<^verbatim>\<open>_fallback_items\<close>, which has one
  item for each technology and no padding: the operation returns one question, not five.
\<close>

theorem unparseable_reply_gives_one_question:
  "questions_data (\<lambda>t. None) (\<lambda>i. Content ''Sorry, I cannot help with that.'')
     (\<lambda>n. ''0f8fad5b-d9cb-469f-a165-70867728950e'') [''python''] 5
   = [\<lparr>qd_topic = ''python'', qd_question = ''Briefly explain core principles of python.'',
       qd_difficulty = ''medium'', qd_question_id = ''0f8fad5b''\<rparr>]"
  by code_simp

text \<open>
  C3 at a failing input. The service returns a text (written \<open>''two items with the id q1''\<close>
  below) that \<^verbatim>\<open>json.loads\<close> parses to \<^const>\<open>two_same_ids\<close>: two valid items that both
  carry the \<^verbatim>\<open>question_id\<close> \<^verbatim>\<open>q1\<close>. The operation keeps a supplied id as it is, so the
  two materialized questions have the same id.
\<close>

theorem supplied_ids_are_not_made_unique:
  "map qd_question_id
     (questions_data (\<lambda>t. Some two_same_ids) (\<lambda>i. Content ''two items with the id q1'')
        (\<lambda>n. ''0f8fad5b-d9cb-469f-a165-70867728950e'') [''python'', ''sql''] 5)
   = [''q1'', ''q1'']"
  by code_simp

subsection \<open>The session\<close>

lemma apply_answer_keeps_technical:
  "apply_answer_to_step f stp t c = (b, c') \<Longrightarrow>
     technical_questions c' = technical_questions c \<and> technical_answers c' = technical_answers c
     \<and> answer_scores c' = answer_scores c"
  by (auto simp: apply_answer_to_step_def Let_def split: if_splits option.splits)

lemma scan_order_range: "scan_order c xs \<in> set xs \<union> {GENERATE_QA}"
  by (induction xs) auto

lemma next_step_range: "next_step c st \<in> set INTAKE_STEPS \<union> {GENERATE_QA}"
  using scan_order_range [of c INTAKE_ORDER]
  by (auto simp: next_step_def INTAKE_STEPS_def INTAKE_ORDER_def)

lemma intake_turn_fields:
  "technical_questions (candidate (intake_turn w p s)) = technical_questions (candidate s)
   \<and> technical_answers (candidate (intake_turn w p s)) = technical_answers (candidate s)
   \<and> answer_scores (candidate (intake_turn w p s)) = answer_scores (candidate s)
   \<and> generated_questions (intake_turn w p s) = generated_questions s"
proof -
  obtain b c' where a: "apply_answer_to_step (w_float w) (step (state s)) p (candidate s) = (b, c')"
    by (cases "apply_answer_to_step (w_float w) (step (state s)) p (candidate s)")
  from apply_answer_keeps_technical [OF a] a show ?thesis
    by (cases b) (simp_all add: intake_turn_def)
qed

lemma intake_turn_step:
  "step (state s) \<in> set INTAKE_STEPS \<Longrightarrow>
     step (state (intake_turn w p s)) \<in> set INTAKE_STEPS \<union> {GENERATE_QA}"
proof -
  assume i: "step (state s) \<in> set INTAKE_STEPS"
  obtain b c' where a: "apply_answer_to_step (w_float w) (step (state s)) p (candidate s) = (b, c')"
    by (cases "apply_answer_to_step (w_float w) (step (state s)) p (candidate s)")
  show ?thesis
  proof (cases b)
    case True
    with a have "step (state (intake_turn w p s)) = next_step c' (state s)"
      by (simp add: intake_turn_def)
    then show ?thesis using next_step_range [of c' "state s"] by simp
  next
    case False
    with a i show ?thesis by (simp add: intake_turn_def)
  qed
qed

lemma intake_turn_inv:
  "session_inv s \<Longrightarrow> step (state s) \<in> set INTAKE_STEPS \<Longrightarrow> session_inv (intake_turn w p s)"
  using intake_turn_fields [of w p s] intake_turn_step [of s w p]
  by (simp add: session_inv_def question_ids_def keys_def)

lemma handle_technical_answer_effect:
  "snd (handle_technical_answer w t s) = s
   \<or> (\<exists>a sc. current_question_index (state s) < length (generated_questions s)
        \<and> technical_answers (candidate (snd (handle_technical_answer w t s)))
            = AList.update (qd_question_id (generated_questions s ! current_question_index (state s)))
                a (technical_answers (candidate s))
        \<and> answer_scores (candidate (snd (handle_technical_answer w t s)))
            = AList.update (qd_question_id (generated_questions s ! current_question_index (state s)))
                sc (answer_scores (candidate s))
        \<and> technical_questions (candidate (snd (handle_technical_answer w t s)))
            = technical_questions (candidate s)
        \<and> generated_questions (snd (handle_technical_answer w t s)) = generated_questions s
        \<and> step (state (snd (handle_technical_answer w t s))) \<in> {step (state s), FOLLOWUP})"
  by (auto simp: handle_technical_answer_def Let_def split: sum.splits)

lemma keys_update: "keys (AList.update k v d) = insert k (keys d)"
  by (simp add: keys_def dom_update)

lemma handle_technical_answer_inv:
  assumes "session_inv s" and "step (state s) = TECHNICAL_QA"
  shows "session_inv (snd (handle_technical_answer w t s))"
proof -
  let ?s' = "snd (handle_technical_answer w t s)"
  let ?q = "generated_questions s ! current_question_index (state s)"
  from handle_technical_answer_effect [of w t s] show ?thesis
  proof
    assume "?s' = s"
    with assms(1) show ?thesis by simp
  next
    assume "\<exists>a sc. current_question_index (state s) < length (generated_questions s)
        \<and> technical_answers (candidate ?s') = AList.update (qd_question_id ?q) a (technical_answers (candidate s))
        \<and> answer_scores (candidate ?s') = AList.update (qd_question_id ?q) sc (answer_scores (candidate s))
        \<and> technical_questions (candidate ?s') = technical_questions (candidate s)
        \<and> generated_questions ?s' = generated_questions s
        \<and> step (state ?s') \<in> {step (state s), FOLLOWUP}"
    then obtain a sc where i: "current_question_index (state s) < length (generated_questions s)"
      and ta: "technical_answers (candidate ?s') = AList.update (qd_question_id ?q) a (technical_answers (candidate s))"
      and sa: "answer_scores (candidate ?s') = AList.update (qd_question_id ?q) sc (answer_scores (candidate s))"
      and tq: "technical_questions (candidate ?s') = technical_questions (candidate s)"
      and gq: "generated_questions ?s' = generated_questions s"
      and st: "step (state ?s') \<in> {step (state s), FOLLOWUP}" by blast
    from assms(1) have g: "generated_questions s = technical_questions (candidate s)"
      by (simp add: session_inv_def)
    from i have "?q \<in> set (generated_questions s)" by simp
    then have qi: "qd_question_id ?q \<in> question_ids (candidate s)"
      by (simp add: question_ids_def g)
    have ids: "question_ids (candidate ?s') = question_ids (candidate s)"
      by (simp add: question_ids_def tq)
    from st assms(2) have ns: "step (state ?s') \<notin> set INTAKE_STEPS \<union> {GENERATE_QA}"
      by (auto simp: INTAKE_STEPS_def)
    from assms(1) qi show ?thesis
      unfolding session_inv_def [of ?s'] ta sa keys_update ids gq tq
      using ns g by (simp add: session_inv_def)
  qed
qed

lemma process_prompt_inv: "session_inv s \<Longrightarrow> session_inv (process_prompt w p s)"
proof -
  assume inv: "session_inv s"
  have e: "session_inv (s\<lparr>state := (state s)\<lparr>exit_detected := True, step := END\<rparr>\<rparr>)"
    using inv by (simp add: session_inv_def question_ids_def INTAKE_STEPS_def)
  have f: "step (state s) = FOLLOWUP \<Longrightarrow>
      session_inv (s\<lparr>candidate := (candidate s)\<lparr>additional_comments := Some (strip p)\<rparr>\<rparr>)"
    using inv by (simp add: session_inv_def question_ids_def)
  show ?thesis
    using e f inv intake_turn_inv [OF inv, of w p] handle_technical_answer_inv [OF inv, of w p]
    by (simp add: process_prompt_def Let_def)
qed

lemma generate_handler_inv: "session_inv s \<Longrightarrow> session_inv (generate_handler w s)"
  by (auto simp: generate_handler_def Let_def session_inv_def question_ids_def keys_def INTAKE_STEPS_def)

lemma script_run_inv: "session_inv s \<Longrightarrow> session_inv (script_run w p s)"
  by (simp add: script_run_def generate_handler_inv process_prompt_inv)

lemma initial_session_inv: "session_inv initial_session"
  by (simp add: session_inv_def initial_session_def new_candidate_def keys_def)

lemma reachable_inv: "reachable s \<Longrightarrow> session_inv s"
  by (induction rule: reachable.induct) (simp_all add: initial_session_inv script_run_inv)

lemma handle_technical_answer_grows:
  "keys (technical_answers (candidate s))
     \<subseteq> keys (technical_answers (candidate (snd (handle_technical_answer w t s))))
   \<and> keys (answer_scores (candidate s))
     \<subseteq> keys (answer_scores (candidate (snd (handle_technical_answer w t s))))"
  using handle_technical_answer_effect [of w t s] by (auto simp: keys_update)

lemma process_prompt_grows:
  "keys (technical_answers (candidate s)) \<subseteq> keys (technical_answers (candidate (process_prompt w p s)))
   \<and> keys (answer_scores (candidate s)) \<subseteq> keys (answer_scores (candidate (process_prompt w p s)))"
  using handle_technical_answer_grows [of s w p] intake_turn_fields [of w p s]
  by (simp add: process_prompt_def Let_def)

lemma generate_handler_same:
  "technical_answers (candidate (generate_handler w s)) = technical_answers (candidate s)
   \<and> answer_scores (candidate (generate_handler w s)) = answer_scores (candidate s)"
  by (simp add: generate_handler_def Let_def)

lemma script_run_grows:
  "keys (technical_answers (candidate s)) \<subseteq> keys (technical_answers (candidate (script_run w p s)))
   \<and> keys (answer_scores (candidate s)) \<subseteq> keys (answer_scores (candidate (script_run w p s)))"
  using process_prompt_grows [of s w p] by (simp add: script_run_def generate_handler_same)

text \<open>
  C9. In every session reachable from \<^const>\<open>initial_session\<close> by runs of the script, the
  keys of \<^verbatim>\<open>technical_answers\<close> and of \<^verbatim>\<open>answer_scores\<close> are ids of questions in
  \<^verbatim>\<open>technical_questions\<close>, and a further run, on any message and with any behaviour of
  the outside, removes no key from either. (The button that starts a new assessment
  deletes the session state and begins another session.)
\<close>

theorem answer_keys_grow_within_question_ids:
  assumes "reachable s"
  shows "keys (technical_answers (candidate s)) \<subseteq> question_ids (candidate s)
       \<and> keys (answer_scores (candidate s)) \<subseteq> question_ids (candidate s)
       \<and> keys (technical_answers (candidate s)) \<subseteq> keys (technical_answers (candidate (script_run w p s)))
       \<and> keys (answer_scores (candidate s)) \<subseteq> keys (answer_scores (candidate (script_run w p s)))"
  using reachable_inv [OF assms] script_run_grows [of s w p] by (simp add: session_inv_def)

theorem answer_keys_grow_within_question_ids_witness:
  "reachable answered_session
   \<and> map fst (technical_answers (candidate answered_session)) = [''00000000'']
   \<and> keys (technical_answers (candidate answered_session)) \<subseteq> question_ids (candidate answered_session)
   \<and> keys (answer_scores (candidate answered_session)) \<subseteq> question_ids (candidate answered_session)
   \<and> keys (technical_answers (candidate answered_session))
       \<subseteq> keys (technical_answers (candidate
             (script_run demo_world ''Joins combine the rows of two tables.'' answered_session)))
   \<and> keys (answer_scores (candidate answered_session))
       \<subseteq> keys (answer_scores (candidate
             (script_run demo_world ''Joins combine the rows of two tables.'' answered_session)))"
proof -
  have r: "reachable answered_session"
    unfolding answered_session_def intake_done_session_def
    by (intro reachable.intros)
  have k: "map fst (technical_answers (candidate answered_session)) = [''00000000'']"
    by code_simp
  from answer_keys_grow_within_question_ids
         [OF r, of demo_world "''Joins combine the rows of two tables.''"] r k
  show ?thesis by simp
qed

subsection \<open>The overall score\<close>

lemma round_half_even_error: "\<bar>of_int (round_half_even q) - q\<bar> \<le> 1 / 2"
proof -
  have "of_int \<lfloor>q\<rfloor> \<le> q" "q < of_int \<lfloor>q\<rfloor> + 1" by linarith+
  then show ?thesis
    by (auto simp: round_half_even_def Let_def abs_le_iff)
qed

lemma pow2_pos: "pow2 e > 0"
  by (simp add: pow2_def)

lemma pow2_power_int: "pow2 e = power_int 2 e"
  by (simp add: pow2_def power_int_def power_inverse [symmetric] inverse_eq_divide power_one_over)

lemma pow2_minus_52: "pow2 (i - 52) = pow2 i / 2 ^ 52"
proof -
  have "power_int (2::rat) (i - 52) = power_int 2 i * power_int 2 (- 52)"
    using power_int_add [of "2::rat" i "- 52"] by simp
  also have "power_int (2::rat) (- 52) = 1 / 2 ^ 52"
    by (simp add: power_int_def inverse_eq_divide power_one_over)
  finally show ?thesis by (simp add: pow2_power_int)
qed

lemma pow2_ilog2_le:
  assumes "q > 0"
  shows "pow2 (ilog2 q) \<le> q"
proof (cases "q \<ge> 1")
  case True
  define m where "m = nat \<lfloor>q\<rfloor>"
  have m: "m > 0" using True by (simp add: m_def)
  have "floorlog 2 m \<noteq> 0" using m by (simp add: floorlog_eq_zero_iff)
  then have f: "floorlog 2 m > 0" by simp
  have "2 ^ (floorlog 2 m - 1) \<le> m" using floorlog_bounds [of m 2] m by simp
  then have "(2::rat) ^ (floorlog 2 m - 1) \<le> of_nat m"
    by (metis of_nat_le_iff of_nat_numeral of_nat_power)
  also have "\<dots> \<le> q" using True by (simp add: m_def)
  finally have "(2::rat) ^ (floorlog 2 m - 1) \<le> q" .
  moreover have "pow2 (ilog2 q) = 2 ^ (floorlog 2 m - 1)"
    using True f by (simp add: ilog2_def pow2_def m_def nat_diff_distrib)
  ultimately show ?thesis by simp
next
  case False
  define z where "z = 1 / q"
  define c where "c = nat \<lceil>z\<rceil> - 1"
  define k where "k = floorlog 2 c"
  have z: "z > 1" using False assms by (simp add: z_def)
  then have "\<lceil>z\<rceil> \<ge> 2" by linarith
  then have c: "c > 0" by (simp add: c_def)
  then have "k \<noteq> 0" by (simp add: k_def floorlog_eq_zero_iff)
  then have k: "k > 0" by simp
  have "c < 2 ^ k" using floorlog_bounds [of c 2] c by (simp add: k_def)
  moreover have "nat \<lceil>z\<rceil> = c + 1" using c unfolding c_def by arith
  ultimately have "nat \<lceil>z\<rceil> \<le> 2 ^ k" by simp
  then have "(of_nat (nat \<lceil>z\<rceil>) :: rat) \<le> 2 ^ k"
    by (metis of_nat_le_iff of_nat_numeral of_nat_power)
  moreover have "z \<le> of_nat (nat \<lceil>z\<rceil>)" using z by (simp add: le_of_int_ceiling)
  ultimately have "z \<le> 2 ^ k" by linarith
  then have "1 / 2 ^ k \<le> 1 / z" using z by (simp add: frac_le)
  then have "1 / 2 ^ k \<le> q" using assms by (simp add: z_def)
  moreover have "pow2 (ilog2 q) = 1 / 2 ^ k"
    using False k by (simp add: ilog2_def pow2_def k_def c_def z_def)
  ultimately show ?thesis by simp
qed

lemma to_double_error:
  assumes "0 \<le> q" and "q \<le> 10"
  shows "\<bar>to_double q - q\<bar> \<le> 5 / 2 ^ 52"
proof (cases "q = 0")
  case True
  then show ?thesis by (simp add: to_double_def)
next
  case False
  with assms have pos: "q > 0" by simp
  define e where "e = max (ilog2 q - 52) (- 1074)"
  define r where "r = round_half_even (q / pow2 e)"
  have td: "to_double q = of_int r * pow2 e"
    using pos by (simp add: to_double_def Let_def e_def r_def)
  have "pow2 (ilog2 q - 52) \<le> 10 / 2 ^ 52"
    using pow2_ilog2_le [OF pos] assms(2) by (simp add: pow2_minus_52 divide_right_mono)
  moreover have "pow2 (- 1074) \<le> 10 / 2 ^ 52" by (simp add: pow2_def)
  ultimately have pe: "pow2 e \<le> 10 / 2 ^ 52" by (simp add: e_def max_def)
  have "\<bar>of_int r - q / pow2 e\<bar> \<le> 1 / 2" unfolding r_def by (rule round_half_even_error)
  then have "\<bar>of_int r - q / pow2 e\<bar> * pow2 e \<le> 1 / 2 * pow2 e"
    using pow2_pos [of e] by (simp add: mult_right_mono)
  moreover have "\<bar>of_int r - q / pow2 e\<bar> * pow2 e = \<bar>of_int r * pow2 e - q\<bar>"
  proof -
    have "\<bar>of_int r - q / pow2 e\<bar> * pow2 e = \<bar>(of_int r - q / pow2 e) * pow2 e\<bar>"
      using pow2_pos [of e] by (simp add: abs_mult)
    also have "(of_int r - q / pow2 e) * pow2 e = of_int r * pow2 e - q"
      using pow2_pos [of e] by (simp add: field_simps)
    finally show ?thesis .
  qed
  ultimately have "\<bar>to_double q - q\<bar> \<le> 1 / 2 * pow2 e" by (simp add: td)
  with pe show ?thesis by simp
qed


lemma sum_scores_bounds:
  "list_all (\<lambda>kv. 0 \<le> score (snd kv) \<and> score (snd kv) \<le> 10) scores \<Longrightarrow>
     0 \<le> sum_list (map (\<lambda>kv. score (snd kv)) scores)
     \<and> sum_list (map (\<lambda>kv. score (snd kv)) scores) \<le> 10 * int (length scores)"
  by (induction scores) auto

lemma nearest_tenth:
  fixes d T :: int and n :: nat and x :: rat
  assumes n: "0 < n" "n < 2 ^ 40"
    and x: "\<bar>x - of_int T / of_nat n\<bar> \<le> 5 / 2 ^ 52"
    and d: "\<bar>of_int d - 10 * x\<bar> \<le> 1 / 2"
  shows "\<bar>(of_int d :: rat) / 10 - of_int T / of_nat n\<bar> \<le> 1 / 20"
proof -
  define q :: rat where "q = of_int T / of_nat n"
  define k :: int where "k = d * int n - 10 * T"
  have npos: "(of_nat n :: rat) > 0" using n(1) by simp
  have "\<bar>of_int d - 10 * q\<bar> = \<bar>(of_int d - 10 * x) + 10 * (x - q)\<bar>"
    by (simp add: algebra_simps)
  also have "\<dots> \<le> \<bar>of_int d - 10 * x\<bar> + \<bar>10 * (x - q)\<bar>" by (rule abs_triangle_ineq)
  also have "\<bar>10 * (x - q)\<bar> = 10 * \<bar>x - q\<bar>" by (simp only: abs_mult abs_numeral)
  finally have "\<bar>of_int d - 10 * q\<bar> \<le> \<bar>of_int d - 10 * x\<bar> + 10 * \<bar>x - q\<bar>" .
  also have "\<dots> \<le> 1 / 2 + 10 * (5 / 2 ^ 52)" using x d by (simp add: q_def)
  finally have e: "\<bar>of_int d - 10 * q\<bar> \<le> 1 / 2 + 50 / 2 ^ 52" by simp
  have kq: "(of_int k :: rat) = (of_int d - 10 * q) * of_nat n"
    using npos by (simp add: k_def q_def field_simps)
  have "\<bar>of_int k :: rat\<bar> = \<bar>of_int d - 10 * q\<bar> * of_nat n"
    using npos by (simp add: kq abs_mult)
  also have "\<dots> \<le> (1 / 2 + 50 / 2 ^ 52) * of_nat n"
    using e npos by (simp add: mult_right_mono)
  finally have "2 * \<bar>of_int k :: rat\<bar> \<le> of_nat n + (100 / 2 ^ 52) * of_nat n"
    by (simp add: field_simps)
  moreover have "(of_nat n :: rat) < 2 ^ 40" using n(2)
    by (metis of_nat_less_iff of_nat_numeral of_nat_power)
  then have "(100 / 2 ^ 52) * (of_nat n :: rat) < 1" by simp
  ultimately have "2 * \<bar>of_int k :: rat\<bar> < of_nat n + 1" by linarith
  then have "(of_int (2 * \<bar>k\<bar>) :: rat) < of_int (int n + 1)" by simp
  then have "2 * \<bar>k\<bar> < int n + 1" by (simp only: of_int_less_iff)
  then have "2 * \<bar>k\<bar> \<le> int n" by simp
  then have "(of_int (2 * \<bar>k\<bar>) :: rat) \<le> of_int (int n)" by (simp only: of_int_le_iff)
  then have k2: "2 * \<bar>of_int k :: rat\<bar> \<le> of_nat n" by simp
  have "\<bar>of_int d - 10 * q\<bar> = \<bar>of_int k :: rat\<bar> / of_nat n"
    using npos by (simp add: kq abs_mult)
  also have "\<dots> \<le> 1 / 2" using k2 npos by (simp add: field_simps)
  finally have h: "\<bar>of_int d - 10 * q\<bar> \<le> 1 / 2" .
  have "\<bar>of_int d / 10 - q\<bar> = \<bar>(of_int d - 10 * q) / 10\<bar>" by (simp add: field_simps)
  also have "\<dots> = \<bar>of_int d - 10 * q\<bar> / 10" by (simp only: abs_divide abs_numeral)
  also have "\<dots> \<le> 1 / 20" using h by simp
  finally show ?thesis unfolding q_def .
qed

lemma overall_score_general:
  assumes ne: "scores \<noteq> []"
    and rng: "valid_scores scores"
    and len: "length scores < 2 ^ 40"
  shows "\<exists>d. calculate_overall_score scores = Inr (to_double (of_int d / 10))
           \<and> \<bar>of_int d / 10 - mean_score scores\<bar> \<le> 1 / 20"
proof -
  define T where "T = sum_list (map (\<lambda>kv. score (snd kv)) scores)"
  define n where "n = length scores"
  define q :: rat where "q = of_int T / of_nat n"
  define x where "x = to_double q"
  define d where "d = round_half_even (10 * x)"
  have n: "0 < n" using ne by (simp add: n_def)
  from sum_scores_bounds [OF rng [unfolded valid_scores_def]] have T: "0 \<le> T" "T \<le> 10 * int n"
    by (simp_all add: T_def n_def)
  have q0: "0 \<le> q" using T(1) by (simp add: q_def)
  have "(of_int T :: rat) \<le> of_int (10 * int n)" using T(2) by (simp only: of_int_le_iff)
  then have q10: "q \<le> 10" using n by (simp add: q_def field_simps)
  have xe: "\<bar>x - q\<bar> \<le> 5 / 2 ^ 52" unfolding x_def by (rule to_double_error [OF q0 q10])
  have "5 / 2 ^ 52 \<le> (1::rat)" by simp
  with xe q0 q10 have "\<bar>x\<bar> \<le> 11" by linarith
  moreover have "(11::rat) < 2 ^ 1024" by simp
  ultimately have small: "\<not> \<bar>x\<bar> \<ge> 2 ^ 1024" by linarith
  have "py_truediv T (int n) = Inr x"
    using n small by (simp add: py_truediv_def Let_def x_def q_def)
  then have res: "calculate_overall_score scores = Inr (to_double (of_int d / 10))"
    using ne by (simp add: calculate_overall_score_def Let_def T_def [symmetric] n_def [symmetric]
        py_round1_def d_def)
  have de: "\<bar>of_int d - 10 * x\<bar> \<le> 1 / 2" unfolding d_def by (rule round_half_even_error)
  have "\<bar>(of_int d :: rat) / 10 - of_int T / of_nat n\<bar> \<le> 1 / 20"
    using nearest_tenth [OF n _ _ de, of T] len xe by (simp add: n_def q_def)
  with res show ?thesis unfolding T_def n_def mean_score_def by blast
qed

text \<open>
  C8. \<^verbatim>\<open>calculate_overall_score\<close> returns 0.0 for the empty mapping, 7.0 for the scores
  8 and 6, and 8.0 for the scores 7, 8 and 9. For every non-empty mapping of scores in the
  range 0..10 of \<^verbatim>\<open>AnswerScore\<close> (with fewer than \<open>2 ^ 40\<close> entries) it returns the mean
  rounded to one decimal place: there is a number \<open>d / 10\<close> with one decimal that is at
  most 1/20 away from the exact mean, and the result is the float of \<open>d / 10\<close>, that is
  the double nearest to it.
\<close>

theorem overall_score_is_rounded_mean:
  "calculate_overall_score [] = Inr 0
   \<and> calculate_overall_score [(''a'', scored 8), (''b'', scored 6)] = Inr 7
   \<and> calculate_overall_score [(''a'', scored 7), (''b'', scored 8), (''c'', scored 9)] = Inr 8
   \<and> (scores \<noteq> [] \<and> valid_scores scores \<and> length scores < 2 ^ 40 \<longrightarrow>
        (\<exists>d. calculate_overall_score scores = Inr (to_double (of_int d / 10))
             \<and> \<bar>of_int d / 10 - mean_score scores\<bar> \<le> 1 / 20))"
proof -
  have a: "calculate_overall_score [] = Inr 0" by (simp add: calculate_overall_score_def)
  have b: "calculate_overall_score [(''a'', scored 8), (''b'', scored 6)] = Inr 7" by code_simp
  have c: "calculate_overall_score [(''a'', scored 7), (''b'', scored 8), (''c'', scored 9)] = Inr 8"
    by code_simp
  from a b c overall_score_general [of scores] show ?thesis by blast
qed

theorem overall_score_is_rounded_mean_witness:
  "[(''a'', scored 7), (''b'', scored 8), (''c'', scored 8)] \<noteq> []
   \<and> valid_scores [(''a'', scored 7), (''b'', scored 8), (''c'', scored 8)]
   \<and> length [(''a'', scored 7), (''b'', scored 8), (''c'', scored 8)] < 2 ^ 40
   \<and> calculate_overall_score [(''a'', scored 7), (''b'', scored 8), (''c'', scored 8)]
       = Inr (to_double (77 / 10))
   \<and> mean_score [(''a'', scored 7), (''b'', scored 8), (''c'', scored 8)] = 23 / 3
   \<and> (\<exists>d. calculate_overall_score [(''a'', scored 7), (''b'', scored 8), (''c'', scored 8)]
              = Inr (to_double (of_int d / 10))
          \<and> \<bar>of_int d / 10 - mean_score [(''a'', scored 7), (''b'', scored 8), (''c'', scored 8)]\<bar>
              \<le> 1 / 20)"
proof -
  let ?s = "[(''a'', scored 7), (''b'', scored 8), (''c'', scored 8)]"
  have v: "valid_scores ?s" by (simp add: valid_scores_def scored_def)
  have l: "length ?s < 2 ^ 40" by simp
  have r: "calculate_overall_score ?s = Inr (to_double (77 / 10))" by code_simp
  have m: "mean_score ?s = 23 / 3" by (simp add: mean_score_def scored_def)
  from overall_score_is_rounded_mean [of ?s] v l r m show ?thesis by blast
qed

end
